theory Spec2Isabelle
  imports Main "HOL-Library.AList"
begin

section \<open>The script component of gatsby-script\<close>

text \<open>
  A shallow embedding of \<^verbatim>\<open>packages/gatsby-script/src/gatsby-script.tsx\<close>: the
  strategy enumeration, the props of the component, the two resolvers, the imperative
  insertion \<^verbatim>\<open>injectScript\<close>, and the component \<^verbatim>\<open>Script\<close> itself, split into what
  it returns (its render output) and the effect it registers (run on mount, with the
  cleanup it returns run on unmount).
\<close>

subsection \<open>Props\<close>

datatype ScriptStrategy = preHydrate | postHydrate | idle | experimentalPartytown

text \<open>The enumeration is string-backed; this is the string behind each member.\<close>

fun strategy_name :: "ScriptStrategy \<Rightarrow> string" where
  "strategy_name preHydrate = ''pre-hydrate''"
| "strategy_name postHydrate = ''post-hydrate''"
| "strategy_name idle = ''idle''"
| "strategy_name experimentalPartytown = ''experimental-partytown''"

text \<open>A callback is known by its identity only.\<close>

type_synonym handler = nat

text \<open>The object given as \<^verbatim>\<open>dangerouslySetInnerHTML\<close>, with its one field \<^verbatim>\<open>__html\<close>.\<close>

datatype inner_html = InnerHTML (html: "string option")

text \<open>
  \<^verbatim>\<open>ScriptProps\<close>. A field that is \<open>None\<close> is a prop that was not supplied
  (\<^verbatim>\<open>undefined\<close>). The props named by the interface or read by the code have a field
  each; \<open>htmlAttributes\<close> holds the other inherited script attributes the caller
  supplied, in the order of the object, string-valued as \<^verbatim>\<open>resolveAttributes\<close>
  declares them (\<^verbatim>\<open>Record<string, string>\<close>).
\<close>

record ScriptProps =
  id_attr :: "string option"
  src :: "string option"
  strategy :: "ScriptStrategy option"
  children :: "string option"
  dangerouslySetInnerHTML :: "inner_html option"
  onLoad :: "handler option"
  onError :: "handler option"
  htmlAttributes :: "(string \<times> string) list"

definition handledProps :: "string set" where
  "handledProps =
     {''src'', ''strategy'', ''dangerouslySetInnerHTML'', ''children'', ''onLoad'', ''onError''}"

text \<open>Destructuring with a default: \<^verbatim>\<open>strategy = ScriptStrategy.postHydrate\<close>.\<close>

definition strategy_or_default :: "ScriptProps \<Rightarrow> ScriptStrategy" where
  "strategy_or_default props = (case strategy props of None \<Rightarrow> postHydrate | Some s \<Rightarrow> s)"

text \<open>Truthiness of an optional string: \<^verbatim>\<open>undefined\<close> and the empty string are falsy.\<close>

fun truthy :: "string option \<Rightarrow> bool" where
  "truthy None = False"
| "truthy (Some s) = (s \<noteq> [])"

text \<open>\<^verbatim>\<open>a || b\<close> on optional strings.\<close>

definition js_or :: "string option \<Rightarrow> string option \<Rightarrow> string option" where
  "js_or a b = (if truthy a then a else b)"

subsection \<open>The resolvers\<close>

text \<open>
  \<^verbatim>\<open>resolveInlineScript\<close>: both destructurings default to the empty string, then
  \<^verbatim>\<open>dangerousHTML || children\<close>.
\<close>

definition resolveInlineScript :: "ScriptProps \<Rightarrow> string" where
  "resolveInlineScript props =
     (let children' = (case children props of None \<Rightarrow> [] | Some c \<Rightarrow> c);
          setter = (case dangerouslySetInnerHTML props of None \<Rightarrow> InnerHTML None | Some d \<Rightarrow> d);
          dangerousHTML = (case html setter of None \<Rightarrow> [] | Some h \<Rightarrow> h)
      in if dangerousHTML \<noteq> [] then dangerousHTML else children')"

text \<open>
  \<^verbatim>\<open>Object.entries(props)\<close>, as far as \<^verbatim>\<open>resolveAttributes\<close> can see it: the
  string-valued own properties under their keys. The four props whose value is not a
  string (\<^verbatim>\<open>strategy\<close>, \<^verbatim>\<open>dangerouslySetInnerHTML\<close>, \<^verbatim>\<open>onLoad\<close>, \<^verbatim>\<open>onError\<close>) all have
  their key in \<open>handledProps\<close>, so the loop skips them whatever they hold; they are not
  listed. The object keeps its keys in the order they were written; the record does not,
  so the three named props come first here. A key occurs once in an object, which is a
  condition on \<open>htmlAttributes\<close> (see C7).
\<close>

definition entry :: "string \<Rightarrow> string option \<Rightarrow> (string \<times> string) list" where
  "entry key v = (case v of None \<Rightarrow> [] | Some s \<Rightarrow> [(key, s)])"

definition Object_entries :: "ScriptProps \<Rightarrow> (string \<times> string) list" where
  "Object_entries props =
     entry ''id'' (id_attr props) @ entry ''src'' (src props) @
     entry ''children'' (children props) @ htmlAttributes props"

text \<open>
  The loop of \<^verbatim>\<open>resolveAttributes\<close>: a handled key is skipped, any other is assigned
  (\<^verbatim>\<open>attributes[key] = value\<close>).
\<close>

fun resolveAttributes_loop ::
  "(string \<times> string) list \<Rightarrow> (string \<times> string) list \<Rightarrow> (string \<times> string) list" where
  "resolveAttributes_loop [] attributes = attributes"
| "resolveAttributes_loop ((key, v) # es) attributes =
     (if key \<in> handledProps then resolveAttributes_loop es attributes
      else resolveAttributes_loop es (AList.update key v attributes))"

definition resolveAttributes :: "ScriptProps \<Rightarrow> (string \<times> string) list" where
  "resolveAttributes props = resolveAttributes_loop (Object_entries props) []"

text \<open>
  The inline body in the words of the specification: the inner value of the raw-HTML
  setter if it is present and not empty, else the children if present, else the empty
  string.
\<close>

definition inlineBody_spec :: "ScriptProps \<Rightarrow> string" where
  "inlineBody_spec props =
     (case dangerouslySetInnerHTML props of
        Some (InnerHTML (Some h)) \<Rightarrow>
          (if h \<noteq> [] then h
           else (case children props of Some c \<Rightarrow> c | None \<Rightarrow> []))
      | _ \<Rightarrow> (case children props of Some c \<Rightarrow> c | None \<Rightarrow> []))"

subsection \<open>The host: document, cache, scheduler, performance entries\<close>

text \<open>
  The document is the host's. Its model keeps what the code can do to it: a script
  element has attributes, a text content and event listeners; elements are known by a
  handle (the position at which they were created); \<open>body\<close> lists the children of
  \<^verbatim>\<open>document.body\<close> in order; \<open>calls\<close> records every mutating call the code issues, in
  order. An attribute is stored under the name and with the value passed to the call.
\<close>

record element =
  el_attributes :: "(string \<times> string) list"
  el_textContent :: string
  el_listeners :: "(string \<times> handler) list"

datatype dom_call =
    CreateElement nat
  | SetAttribute nat string string
  | SetTextContent nat string
  | AddEventListener nat string handler
  | RemoveEventListener nat string handler
  | AppendChild nat
  | Remove nat

text \<open>
  The state of the page: the location and the names of the performance entries (both
  only read), the document, the module-level \<^verbatim>\<open>scriptCache\<close> (a set of keys, each a
  string or \<^verbatim>\<open>undefined\<close>), the \<^verbatim>\<open>script\<close> variable of every effect that has run (the
  variable its cleanup and its idle callback close over), and the callbacks handed to
  \<^verbatim>\<open>requestIdleCallback\<close> that have not run yet, each with the variable it assigns and
  the props it passes on.
\<close>

record page =
  href :: string
  performanceEntries :: "string list"
  elements :: "element list"
  body :: "nat list"
  calls :: "dom_call list"
  scriptCache :: "string option set"
  scriptCells :: "nat option list"
  idleCallbacks :: "(nat \<times> ScriptProps) list"

definition getEntriesByName :: "string \<Rightarrow> page \<Rightarrow> string list" where
  "getEntriesByName name st = filter (\<lambda>e. e = name) (performanceEntries st)"

text \<open>
  A call on one element: the element changes as the call says (a handle that names no
  element changes nothing), and the calls made are recorded.
\<close>

definition on_element :: "nat \<Rightarrow> (element \<Rightarrow> element) \<Rightarrow> dom_call list \<Rightarrow> page \<Rightarrow> page" where
  "on_element h f cs st =
     st\<lparr>elements := (elements st)[h := f (elements st ! h)], calls := calls st @ cs\<rparr>"

definition createElement :: "page \<Rightarrow> nat \<times> page" where
  "createElement st =
     (length (elements st),
      st\<lparr>elements := elements st @
             [\<lparr>el_attributes = [], el_textContent = [], el_listeners = []\<rparr>],
         calls := calls st @ [CreateElement (length (elements st))]\<rparr>)"

definition setAttribute :: "nat \<Rightarrow> string \<Rightarrow> string \<Rightarrow> page \<Rightarrow> page" where
  "setAttribute h key v =
     on_element h (\<lambda>e. e\<lparr>el_attributes := AList.update key v (el_attributes e)\<rparr>)
       [SetAttribute h key v]"

definition setTextContent :: "nat \<Rightarrow> string \<Rightarrow> page \<Rightarrow> page" where
  "setTextContent h t = on_element h (\<lambda>e. e\<lparr>el_textContent := t\<rparr>) [SetTextContent h t]"

text \<open>A listener already registered for the same event is not registered twice.\<close>

definition addEventListener :: "nat \<Rightarrow> string \<Rightarrow> handler \<Rightarrow> page \<Rightarrow> page" where
  "addEventListener h kind f =
     on_element h
       (\<lambda>e. e\<lparr>el_listeners :=
                (if (kind, f) \<in> set (el_listeners e) then el_listeners e
                 else el_listeners e @ [(kind, f)])\<rparr>)
       [AddEventListener h kind f]"

definition removeEventListener :: "nat \<Rightarrow> string \<Rightarrow> handler \<Rightarrow> page \<Rightarrow> page" where
  "removeEventListener h kind f =
     on_element h (\<lambda>e. e\<lparr>el_listeners := removeAll (kind, f) (el_listeners e)\<rparr>)
       [RemoveEventListener h kind f]"

text \<open>The appended element is always a new one, so it becomes the last child.\<close>

definition appendChild :: "nat \<Rightarrow> page \<Rightarrow> page" where
  "appendChild h st = st\<lparr>body := body st @ [h], calls := calls st @ [AppendChild h]\<rparr>"

definition remove_element :: "nat \<Rightarrow> page \<Rightarrow> page" where
  "remove_element h st = st\<lparr>body := removeAll h (body st), calls := calls st @ [Remove h]\<rparr>"

definition fresh_page :: "string \<Rightarrow> string list \<Rightarrow> page" where
  "fresh_page url entries =
     \<lparr>href = url, performanceEntries = entries, elements = [], body = [], calls = [],
      scriptCache = {}, scriptCells = [], idleCallbacks = []\<rparr>"

subsection \<open>injectScript\<close>

text \<open>The key the cache is asked for and given: \<^verbatim>\<open>id || src\<close>.\<close>

definition cache_key :: "ScriptProps \<Rightarrow> string option" where
  "cache_key props = js_or (id_attr props) (src props)"

text \<open>The loop \<^verbatim>\<open>for (const [key, value] of Object.entries(attributes))\<close>.\<close>

fun setAttributes :: "nat \<Rightarrow> (string \<times> string) list \<Rightarrow> page \<Rightarrow> page" where
  "setAttributes h [] st = st"
| "setAttributes h ((key, v) # kvs) st = setAttributes h kvs (setAttribute h key v st)"

text \<open>
  \<^verbatim>\<open>script.id\<close>, \<^verbatim>\<open>script.dataset.strategy\<close> and \<^verbatim>\<open>script.src\<close> are reflected by the
  attributes \<^verbatim>\<open>id\<close>, \<^verbatim>\<open>data-strategy\<close> and \<^verbatim>\<open>src\<close>.
\<close>

definition injectScript :: "ScriptProps \<Rightarrow> page \<Rightarrow> nat option \<times> page" where
  "injectScript props st =
     (if cache_key props \<in> scriptCache st then (None, st)
      else
        let inlineScript = resolveInlineScript props;
            attributes = resolveAttributes props;
            (script, st) = createElement st;
            st = (case id_attr props of
                    Some i \<Rightarrow> (if truthy (Some i) then setAttribute script ''id'' i st else st)
                  | None \<Rightarrow> st);
            st = setAttribute script ''data-strategy'' (strategy_name (strategy_or_default props)) st;
            st = setAttributes script attributes st;
            st = (if inlineScript \<noteq> [] then setTextContent script inlineScript st else st);
            st = (case src props of
                    Some u \<Rightarrow> (if truthy (Some u) then setAttribute script ''src'' u st else st)
                  | None \<Rightarrow> st);
            st = (case onLoad props of
                    Some f \<Rightarrow> addEventListener script ''load'' f st | None \<Rightarrow> st);
            st = (case onError props of
                    Some f \<Rightarrow> addEventListener script ''error'' f st | None \<Rightarrow> st);
            st = appendChild script st;
            st = st\<lparr>scriptCache := insert (cache_key props) (scriptCache st)\<rparr>
        in (Some script, st))"

subsection \<open>The component\<close>

text \<open>
  What \<^verbatim>\<open>Script\<close> returns: an empty fragment, or a script element with its props (a
  string, \<^verbatim>\<open>true\<close> for \<^verbatim>\<open>async\<close>, or \<^verbatim>\<open>undefined\<close> for an absent \<^verbatim>\<open>src\<close>) and its
  children.
\<close>

datatype jsx_value = JsxBool bool | JsxString string | JsxUndefined

datatype ReactElement =
    Fragment
  | ScriptTag (tag_props: "(string \<times> jsx_value) list") (tag_children: "string option")

text \<open>The spread \<^verbatim>\<open>{...attributes}\<close> after the props written before it.\<close>

fun spread :: "(string \<times> string) list \<Rightarrow> (string \<times> jsx_value) list \<Rightarrow> (string \<times> jsx_value) list" where
  "spread [] ps = ps"
| "spread ((key, v) # kvs) ps = spread kvs (AList.update key (JsxString v) ps)"

definition Script_render :: "ScriptProps \<Rightarrow> ReactElement" where
  "Script_render props =
     (let strategy' = strategy_or_default props in
      if strategy' = preHydrate \<or> strategy' = experimentalPartytown then
        let inlineScript = resolveInlineScript props;
            attributes = resolveAttributes props;
            attributes = (if strategy' = experimentalPartytown
                          then AList.update ''type'' ''text/partytown'' attributes
                          else attributes)
        in if inlineScript \<noteq> [] then
             ScriptTag
               (spread attributes
                  [(''async'', JsxBool True),
                   (''data-strategy'', JsxString (strategy_name strategy'))])
               (Some (resolveInlineScript props))
           else
             ScriptTag
               (spread attributes
                  [(''async'', JsxBool True),
                   (''src'', (case src props of None \<Rightarrow> JsxUndefined | Some s \<Rightarrow> JsxString s)),
                   (''data-strategy'', JsxString (strategy_name strategy'))])
               None
      else Fragment)"

text \<open>
  The effect, run once when the component mounts. It declares \<^verbatim>\<open>script\<close> (a new cell,
  \<^verbatim>\<open>undefined\<close> at first) and switches on the strategy; the result is the cell, which
  the cleanup will read, and the new state of the page.
\<close>

definition assign_script :: "nat \<Rightarrow> nat option \<times> page \<Rightarrow> page" where
  "assign_script cell r = (snd r)\<lparr>scriptCells := (scriptCells (snd r))[cell := fst r]\<rparr>"

definition useEffect_mount :: "ScriptProps \<Rightarrow> page \<Rightarrow> nat \<times> page" where
  "useEffect_mount props st =
     (let cell = length (scriptCells st);
          st = st\<lparr>scriptCells := scriptCells st @ [None]\<rparr>
      in (cell,
          (case strategy_or_default props of
             preHydrate \<Rightarrow>
               (if length (getEntriesByName (href st) st) = 0
                then assign_script cell (injectScript props st) else st)
           | postHydrate \<Rightarrow> assign_script cell (injectScript props st)
           | idle \<Rightarrow> st\<lparr>idleCallbacks := idleCallbacks st @ [(cell, props)]\<rparr>
           | experimentalPartytown \<Rightarrow> st)))"

text \<open>The value of a \<^verbatim>\<open>script\<close> variable; a cell that was never declared holds nothing.\<close>

definition read_script :: "page \<Rightarrow> nat \<Rightarrow> nat option" where
  "read_script st cell = (if cell < length (scriptCells st) then scriptCells st ! cell else None)"

text \<open>
  The cleanup the effect returns, run when the component unmounts. \<^verbatim>\<open>script?.m()\<close>
  does nothing when \<^verbatim>\<open>script\<close> is \<^verbatim>\<open>null\<close> or \<^verbatim>\<open>undefined\<close>.
\<close>

definition useEffect_cleanup :: "ScriptProps \<Rightarrow> nat \<Rightarrow> page \<Rightarrow> page" where
  "useEffect_cleanup props cell st =
     (let script = read_script st cell;
          st = (case onLoad props of
                  Some f \<Rightarrow> (case script of Some h \<Rightarrow> removeEventListener h ''load'' f st
                                          | None \<Rightarrow> st)
                | None \<Rightarrow> st);
          st = (case onError props of
                  Some f \<Rightarrow> (case script of Some h \<Rightarrow> removeEventListener h ''error'' f st
                                          | None \<Rightarrow> st)
                | None \<Rightarrow> st)
      in (case script of Some h \<Rightarrow> remove_element h st | None \<Rightarrow> st))"

text \<open>
  The host runs a pending idle callback, whichever it chooses (the \<open>i\<close>-th one): the
  callback calls \<^verbatim>\<open>injectScript\<close> in the state of the page at that moment and assigns
  the result to the \<^verbatim>\<open>script\<close> variable of its effect.
\<close>

definition runIdleCallback :: "nat \<Rightarrow> page \<Rightarrow> page" where
  "runIdleCallback i st =
     (if i < length (idleCallbacks st) then
        (case idleCallbacks st ! i of
           (cell, props) \<Rightarrow>
             assign_script cell
               (injectScript props
                  (st\<lparr>idleCallbacks := take i (idleCallbacks st) @ drop (Suc i) (idleCallbacks st)\<rparr>)))
      else st)"

text \<open>What can happen on the page, and a run of such events.\<close>

datatype event = Mount ScriptProps | Unmount ScriptProps nat | Idle nat

fun fire :: "event \<Rightarrow> page \<Rightarrow> page" where
  "fire (Mount props) st = snd (useEffect_mount props st)"
| "fire (Unmount props cell) st = useEffect_cleanup props cell st"
| "fire (Idle i) st = runIdleCallback i st"

definition run :: "event list \<Rightarrow> page \<Rightarrow> page" where
  "run evs st = fold fire evs st"

text \<open>The props object with no key, \<^verbatim>\<open>{}\<close>.\<close>

definition no_props :: ScriptProps where
  "no_props =
     \<lparr>id_attr = None, src = None, strategy = None, children = None,
      dangerouslySetInnerHTML = None, onLoad = None, onError = None, htmlAttributes = []\<rparr>"

text \<open>Whether a call appends a child to the body.\<close>

fun is_append :: "dom_call \<Rightarrow> bool" where
  "is_append (AppendChild h) = True"
| "is_append c = False"

section \<open>Reasoning about the host calls\<close>

subsection \<open>Calls on one element\<close>

lemma on_element_frame [simp]:
  "href (on_element h f cs st) = href st"
  "performanceEntries (on_element h f cs st) = performanceEntries st"
  "body (on_element h f cs st) = body st"
  "calls (on_element h f cs st) = calls st @ cs"
  "scriptCache (on_element h f cs st) = scriptCache st"
  "scriptCells (on_element h f cs st) = scriptCells st"
  "idleCallbacks (on_element h f cs st) = idleCallbacks st"
  "length (elements (on_element h f cs st)) = length (elements st)"
  by (simp_all add: on_element_def)

lemma on_element_nth:
  "elements (on_element h f cs st) ! h' =
     (if h' = h \<and> h < length (elements st) then f (elements st ! h) else elements st ! h')"
  by (cases "h' = h") (auto simp: on_element_def list_update_beyond not_less)

lemma on_element_compose:
  "on_element h g ds (on_element h f cs st) = on_element h (g \<circ> f) (cs @ ds) st"
  by (cases "h < length (elements st)") (simp_all add: on_element_def list_update_beyond not_less)

lemma on_element_if:
  "(if c then on_element h f cs st else st) =
     on_element h (if c then f else id) (if c then cs else []) st"
  by (simp add: on_element_def)

lemma on_element_case:
  "(case x of Some a \<Rightarrow> on_element h (f a) (cs a) st | None \<Rightarrow> st) =
     on_element h (case x of Some a \<Rightarrow> f a | None \<Rightarrow> id)
       (case x of Some a \<Rightarrow> cs a | None \<Rightarrow> []) st"
  by (simp add: on_element_def split: option.splits)

lemma on_element_case_if:
  "(case x of Some a \<Rightarrow> (if c a then on_element h (f a) (cs a) st else st) | None \<Rightarrow> st) =
     on_element h (case x of Some a \<Rightarrow> (if c a then f a else id) | None \<Rightarrow> id)
       (case x of Some a \<Rightarrow> (if c a then cs a else []) | None \<Rightarrow> []) st"
  by (simp add: on_element_def split: option.splits)

lemma setAttributes_on_element:
  "setAttributes h kvs st =
     on_element h (\<lambda>e. e\<lparr>el_attributes := fold (\<lambda>(k, v). AList.update k v) kvs (el_attributes e)\<rparr>)
       (map (\<lambda>(k, v). SetAttribute h k v) kvs) st"
proof (induction h kvs st rule: setAttributes.induct)
  case (1 h st)
  show ?case by (simp add: on_element_def)
next
  case (2 h key v kvs st)
  have "setAttributes h ((key, v) # kvs) st = setAttributes h kvs (setAttribute h key v st)"
    by simp
  also note 2
  finally show ?case
    by (simp add: setAttribute_def on_element_compose comp_def)
qed

lemma on_element_new:
  "on_element (length es) f cs (st\<lparr>elements := es @ [e], calls := cs0\<rparr>) =
     st\<lparr>elements := es @ [f e], calls := cs0 @ cs\<rparr>"
  by (simp add: on_element_def)

subsection \<open>The two outcomes of injectScript\<close>

lemma injectScript_hit:
  "cache_key props \<in> scriptCache st \<Longrightarrow> injectScript props st = (None, st)"
  by (simp add: injectScript_def)

lemmas injectScript_steps =
  injectScript_def Let_def createElement_def setAttribute_def setTextContent_def
  addEventListener_def on_element_if on_element_case on_element_case_if
  setAttributes_on_element on_element_compose on_element_new appendChild_def

lemma injectScript_miss_frame:
  assumes "cache_key props \<notin> scriptCache st"
  shows "fst (injectScript props st) = Some (length (elements st))"
    and "body (snd (injectScript props st)) = body st @ [length (elements st)]"
    and "scriptCache (snd (injectScript props st)) = insert (cache_key props) (scriptCache st)"
    and "scriptCells (snd (injectScript props st)) = scriptCells st"
    and "idleCallbacks (snd (injectScript props st)) = idleCallbacks st"
    and "href (snd (injectScript props st)) = href st"
    and "performanceEntries (snd (injectScript props st)) = performanceEntries st"
    and "length (elements (snd (injectScript props st))) = Suc (length (elements st))"
    and "take (length (elements st)) (elements (snd (injectScript props st))) = elements st"
  using assms
  by (simp_all add: injectScript_steps cong: option.case_cong if_cong)

lemma injectScript_miss_calls:
  assumes "cache_key props \<notin> scriptCache st"
  shows "calls (snd (injectScript props st)) =
           calls st @ [CreateElement (length (elements st))] @
           (case id_attr props of
              Some i \<Rightarrow> (if i \<noteq> [] then [SetAttribute (length (elements st)) ''id'' i] else [])
            | None \<Rightarrow> []) @
           [SetAttribute (length (elements st)) ''data-strategy''
              (strategy_name (strategy_or_default props))] @
           map (\<lambda>(k, v). SetAttribute (length (elements st)) k v) (resolveAttributes props) @
           (if resolveInlineScript props \<noteq> []
            then [SetTextContent (length (elements st)) (resolveInlineScript props)] else []) @
           (case src props of
              Some u \<Rightarrow> (if u \<noteq> [] then [SetAttribute (length (elements st)) ''src'' u] else [])
            | None \<Rightarrow> []) @
           (case onLoad props of
              Some f \<Rightarrow> [AddEventListener (length (elements st)) ''load'' f] | None \<Rightarrow> []) @
           (case onError props of
              Some f \<Rightarrow> [AddEventListener (length (elements st)) ''error'' f] | None \<Rightarrow> []) @
           [AppendChild (length (elements st))]"
  using assms
  by (simp add: injectScript_steps cong: option.case_cong if_cong)

lemma injectScript_miss_listeners:
  assumes "cache_key props \<notin> scriptCache st"
  shows "el_listeners (elements (snd (injectScript props st)) ! length (elements st)) =
           (case onLoad props of Some f \<Rightarrow> [(''load'', f)] | None \<Rightarrow> []) @
           (case onError props of Some f \<Rightarrow> [(''error'', f)] | None \<Rightarrow> [])"
  using assms
  by (simp add: injectScript_steps cong: option.case_cong if_cong)
     (simp split: option.splits)

lemma injectScript_miss_text:
  assumes "cache_key props \<notin> scriptCache st"
  shows "el_textContent (elements (snd (injectScript props st)) ! length (elements st)) =
           resolveInlineScript props"
  using assms
  by (simp add: injectScript_steps cong: option.case_cong if_cong)
     (simp split: option.splits)

lemma map_of_fold_update:
  "map_of (fold (\<lambda>(k, v). AList.update k v) kvs base) k = (map_of base ++ map_of (rev kvs)) k"
  by (induction kvs arbitrary: base)
     (simp_all add: update_conv' map_add_def split_beta split: option.splits)

lemma injectScript_miss_attributes:
  assumes "cache_key props \<notin> scriptCache st"
    and "map_of (rev (resolveAttributes props)) k = Some v" and "k \<noteq> ''src''"
  shows "map_of (el_attributes (elements (snd (injectScript props st)) ! length (elements st))) k
           = Some v"
  using assms
  by (simp add: injectScript_steps cong: option.case_cong if_cong)
     (simp add: map_of_fold_update update_conv' map_add_def split: option.splits)

subsection \<open>The cache only grows\<close>

lemma remove_element_frame [simp]:
  "href (remove_element h st) = href st"
  "performanceEntries (remove_element h st) = performanceEntries st"
  "body (remove_element h st) = removeAll h (body st)"
  "calls (remove_element h st) = calls st @ [Remove h]"
  "scriptCache (remove_element h st) = scriptCache st"
  "scriptCells (remove_element h st) = scriptCells st"
  "idleCallbacks (remove_element h st) = idleCallbacks st"
  "elements (remove_element h st) = elements st"
  by (simp_all add: remove_element_def)

lemma injectScript_cache:
  "scriptCache (snd (injectScript props st)) = insert (cache_key props) (scriptCache st)"
  by (cases "cache_key props \<in> scriptCache st")
     (simp_all add: injectScript_hit injectScript_miss_frame insert_absorb)

lemma assign_script_frame [simp]:
  "href (assign_script cell r) = href (snd r)"
  "performanceEntries (assign_script cell r) = performanceEntries (snd r)"
  "elements (assign_script cell r) = elements (snd r)"
  "body (assign_script cell r) = body (snd r)"
  "calls (assign_script cell r) = calls (snd r)"
  "scriptCache (assign_script cell r) = scriptCache (snd r)"
  "idleCallbacks (assign_script cell r) = idleCallbacks (snd r)"
  "scriptCells (assign_script cell r) = (scriptCells (snd r))[cell := fst r]"
  by (simp_all add: assign_script_def)

lemma mount_cache:
  "scriptCache st \<subseteq> scriptCache (snd (useEffect_mount props st))"
  by (cases "strategy_or_default props")
     (auto simp: useEffect_mount_def Let_def injectScript_cache)

lemma cleanup_cache:
  "scriptCache (useEffect_cleanup props cell st) = scriptCache st"
  by (simp add: useEffect_cleanup_def Let_def removeEventListener_def split: option.splits)

lemma idle_cache:
  "scriptCache st \<subseteq> scriptCache (runIdleCallback i st)"
  by (auto simp: runIdleCallback_def injectScript_cache split: prod.splits)

lemma fire_cache: "scriptCache st \<subseteq> scriptCache (fire e st)"
  by (cases e) (simp_all add: mount_cache cleanup_cache idle_cache)

lemma run_cache: "scriptCache st \<subseteq> scriptCache (run evs st)"
  unfolding run_def
proof (induction evs arbitrary: st)
  case Nil
  show ?case by simp
next
  case (Cons e evs)
  have "scriptCache st \<subseteq> scriptCache (fire e st)" by (rule fire_cache)
  also have "\<dots> \<subseteq> scriptCache (fold fire evs (fire e st))" by (rule Cons.IH)
  finally show ?case by simp
qed

lemma mount_cached_frame:
  assumes "cache_key props \<in> scriptCache st"
  shows "body (snd (useEffect_mount props st)) = body st"
    and "calls (snd (useEffect_mount props st)) = calls st"
    and "elements (snd (useEffect_mount props st)) = elements st"
  using assms
  by (cases "strategy_or_default props"; simp add: useEffect_mount_def Let_def injectScript_hit)+

lemma injectScript_miss_appends:
  assumes "cache_key props \<notin> scriptCache st"
  shows "filter is_append (calls (snd (injectScript props st))) =
           filter is_append (calls st) @ [AppendChild (length (elements st))]"
  using assms
  by (auto simp: injectScript_miss_calls filter_empty_conv split_beta split: option.splits)

subsection \<open>The render output and the effect\<close>

lemma map_of_rev_distinct: "distinct (map fst xs) \<Longrightarrow> map_of (rev xs) k = map_of xs k"
  by (metis distinct_rev map_of_eq_Some_iff not_Some_eq rev_map set_rev)

lemma spread_map_of:
  "map_of (spread kvs ps) k =
     (map_of ps ++ map_of (rev (map (\<lambda>(k, v). (k, JsxString v)) kvs))) k"
  by (induction kvs ps rule: spread.induct)
     (simp_all add: update_conv' map_add_def split: option.splits)

lemma spread_lookup:
  assumes "distinct (map fst kvs)"
  shows "map_of (spread kvs ps) k =
           (case map_of kvs k of Some v \<Rightarrow> Some (JsxString v) | None \<Rightarrow> map_of ps k)"
proof -
  have "distinct (map fst (map (\<lambda>(k, v). (k, JsxString v)) kvs))"
    using assms by (simp add: comp_def split_beta)
  then have "map_of (rev (map (\<lambda>(k, v). (k, JsxString v)) kvs)) k =
      map_of (map (\<lambda>(k, v). (k, JsxString v)) kvs) k"
    by (rule map_of_rev_distinct)
  also have "\<dots> = map_option JsxString (map_of kvs k)"
    by (simp add: map_of_map)
  finally show ?thesis
    by (simp add: spread_map_of map_add_def split: option.splits)
qed

lemma resolveAttributes_loop_distinct:
  "distinct (map fst acc) \<Longrightarrow> distinct (map fst (resolveAttributes_loop es acc))"
  by (induction es acc rule: resolveAttributes_loop.induct) (auto simp: distinct_update)

lemma resolveAttributes_distinct: "distinct (map fst (resolveAttributes props))"
  by (simp add: resolveAttributes_def resolveAttributes_loop_distinct)

lemma mount_without_injection:
  "strategy_or_default props = experimentalPartytown \<Longrightarrow>
   useEffect_mount props st =
     (length (scriptCells st), st\<lparr>scriptCells := scriptCells st @ [None]\<rparr>)"
  by (simp add: useEffect_mount_def Let_def)

lemma read_new_cell:
  "read_script (st\<lparr>scriptCells := scriptCells st @ [None]\<rparr>) (length (scriptCells st)) = None"
  by (simp add: read_script_def)

lemma cleanup_without_script:
  "read_script st cell = None \<Longrightarrow> useEffect_cleanup props cell st = st"
  by (simp add: useEffect_cleanup_def Let_def split: option.splits)

lemma mount_preHydrate:
  "strategy_or_default props = preHydrate \<Longrightarrow>
   useEffect_mount props st =
     (length (scriptCells st),
      if getEntriesByName (href st) st = []
      then assign_script (length (scriptCells st))
             (injectScript props (st\<lparr>scriptCells := scriptCells st @ [None]\<rparr>))
      else st\<lparr>scriptCells := scriptCells st @ [None]\<rparr>)"
  by (simp add: useEffect_mount_def Let_def getEntriesByName_def)

lemma mount_postHydrate:
  "strategy_or_default props = postHydrate \<Longrightarrow>
   useEffect_mount props st =
     (length (scriptCells st),
      assign_script (length (scriptCells st))
        (injectScript props (st\<lparr>scriptCells := scriptCells st @ [None]\<rparr>)))"
  by (simp add: useEffect_mount_def Let_def)

lemma mount_idle:
  "strategy_or_default props = idle \<Longrightarrow>
   useEffect_mount props st =
     (length (scriptCells st),
      st\<lparr>scriptCells := scriptCells st @ [None],
         idleCallbacks := idleCallbacks st @ [(length (scriptCells st), props)]\<rparr>)"
  by (simp add: useEffect_mount_def Let_def)

lemma injectScript_location:
  "injectScript props (st\<lparr>href := u, performanceEntries := es\<rparr>) =
     (fst (injectScript props st), (snd (injectScript props st))\<lparr>href := u, performanceEntries := es\<rparr>)"
proof (cases "cache_key props \<in> scriptCache st")
  case True
  then show ?thesis by (simp add: injectScript_def)
next
  case False
  then show ?thesis
    by (simp add: injectScript_steps cong: option.case_cong if_cong)
qed

lemma assign_script_location:
  "assign_script cell (r, st\<lparr>href := u, performanceEntries := es\<rparr>) =
     (assign_script cell (r, st))\<lparr>href := u, performanceEntries := es\<rparr>"
  by (cases st) (simp add: assign_script_def)

lemma mount_location:
  assumes "strategy_or_default props \<noteq> preHydrate"
  shows "useEffect_mount props (st\<lparr>href := u, performanceEntries := es\<rparr>) =
           (fst (useEffect_mount props st),
            (snd (useEffect_mount props st))\<lparr>href := u, performanceEntries := es\<rparr>)"
proof (cases "strategy_or_default props")
  case preHydrate
  with assms show ?thesis by simp
next
  case postHydrate
  have cells: "(st\<lparr>href := u, performanceEntries := es\<rparr>)
        \<lparr>scriptCells := scriptCells (st\<lparr>href := u, performanceEntries := es\<rparr>) @ [None]\<rparr> =
      (st\<lparr>scriptCells := scriptCells st @ [None]\<rparr>)\<lparr>href := u, performanceEntries := es\<rparr>"
    by (cases st) simp
  show ?thesis
    unfolding mount_postHydrate [OF postHydrate] cells injectScript_location
      assign_script_location
    by simp
next
  case idle
  then show ?thesis by (cases st) (simp add: mount_idle)
next
  case experimentalPartytown
  then show ?thesis by (cases st) (simp add: mount_without_injection)
qed

lemma render_declarative:
  "Script_render props = Fragment \<longleftrightarrow> strategy_or_default props \<in> {postHydrate, idle}"
  by (cases "strategy_or_default props") (simp_all add: Script_render_def Let_def)

subsection \<open>Attributes passed through\<close>

lemma resolveAttributes_loop_map_of:
  "map_of (resolveAttributes_loop es acc) k =
     (map_of acc ++ map_of (rev (filter (\<lambda>(k, v). k \<notin> handledProps) es))) k"
  by (induction es acc rule: resolveAttributes_loop.induct)
     (simp_all add: update_conv' map_add_def split: option.splits)

lemma resolveAttributes_loop_keys:
  "fst ` set (resolveAttributes_loop es acc) = fst ` set acc \<union> (fst ` set es - handledProps)"
  by (induction es acc rule: resolveAttributes_loop.induct) (auto simp: dom_update)

lemma resolveAttributes_keys:
  "fst ` set (resolveAttributes props) = fst ` set (Object_entries props) - handledProps"
  by (simp add: resolveAttributes_def resolveAttributes_loop_keys)

lemma resolveAttributes_supplied:
  assumes "distinct (map fst (Object_entries props))"
    and "(k, v) \<in> set (Object_entries props)" and "k \<notin> handledProps"
  shows "map_of (resolveAttributes props) k = Some v"
proof -
  let ?kept = "filter (\<lambda>(k, v). k \<notin> handledProps) (Object_entries props)"
  have "distinct (map fst ?kept)"
    using assms(1) by (simp add: distinct_map_filter)
  moreover have "(k, v) \<in> set ?kept"
    using assms(2,3) by simp
  ultimately have "map_of (rev ?kept) k = Some v"
    by (simp add: map_of_rev_distinct)
  then show ?thesis
    by (simp add: resolveAttributes_def resolveAttributes_loop_map_of)
qed

lemma render_passthrough:
  assumes "Script_render props = ScriptTag ps ch"
    and "map_of (resolveAttributes props) k = Some v"
  shows "map_of ps k =
     Some (JsxString (if strategy_or_default props = experimentalPartytown \<and> k = ''type''
                      then ''text/partytown'' else v))"
proof -
  have d1: "distinct (map fst (resolveAttributes props))"
    by (rule resolveAttributes_distinct)
  have d2: "distinct (map fst (AList.update ''type'' ''text/partytown'' (resolveAttributes props)))"
    by (simp add: distinct_update resolveAttributes_distinct)
  show ?thesis
    using assms
    by (cases "strategy_or_default props")
       (auto simp: Script_render_def Let_def spread_lookup [OF d1] spread_lookup [OF d2]
          update_conv' split: if_splits)
qed

subsection \<open>Cleanup and idle callbacks\<close>

lemma fresh_page_simps [simp]:
  "href (fresh_page url entries) = url"
  "performanceEntries (fresh_page url entries) = entries"
  "elements (fresh_page url entries) = []"
  "body (fresh_page url entries) = []"
  "calls (fresh_page url entries) = []"
  "scriptCache (fresh_page url entries) = {}"
  "scriptCells (fresh_page url entries) = []"
  "idleCallbacks (fresh_page url entries) = []"
  by (simp_all add: fresh_page_def)

lemma no_props_simps [simp]:
  "id_attr no_props = None"
  "src no_props = None"
  "strategy no_props = None"
  "children no_props = None"
  "dangerouslySetInnerHTML no_props = None"
  "onLoad no_props = None"
  "onError no_props = None"
  "htmlAttributes no_props = []"
  by (simp_all add: no_props_def)

lemma removeEventListener_frame [simp]:
  "href (removeEventListener h kind f st) = href st"
  "performanceEntries (removeEventListener h kind f st) = performanceEntries st"
  "body (removeEventListener h kind f st) = body st"
  "calls (removeEventListener h kind f st) = calls st @ [RemoveEventListener h kind f]"
  "scriptCache (removeEventListener h kind f st) = scriptCache st"
  "scriptCells (removeEventListener h kind f st) = scriptCells st"
  "idleCallbacks (removeEventListener h kind f st) = idleCallbacks st"
  "length (elements (removeEventListener h kind f st)) = length (elements st)"
  by (simp_all add: removeEventListener_def)

lemma removeEventListener_nth:
  "elements (removeEventListener h kind f st) ! h' =
     (if h' = h \<and> h < length (elements st)
      then (elements st ! h)\<lparr>el_listeners := removeAll (kind, f) (el_listeners (elements st ! h))\<rparr>
      else elements st ! h')"
  by (simp add: removeEventListener_def on_element_nth)

lemma cleanup_with_script:
  assumes "read_script st cell = Some h"
  shows "calls (useEffect_cleanup props cell st) =
           calls st @
           (case onLoad props of Some f \<Rightarrow> [RemoveEventListener h ''load'' f] | None \<Rightarrow> []) @
           (case onError props of Some f \<Rightarrow> [RemoveEventListener h ''error'' f] | None \<Rightarrow> []) @
           [Remove h]"
    and "body (useEffect_cleanup props cell st) = removeAll h (body st)"
    and "scriptCells (useEffect_cleanup props cell st) = scriptCells st"
    and "idleCallbacks (useEffect_cleanup props cell st) = idleCallbacks st"
    and "length (elements (useEffect_cleanup props cell st)) = length (elements st)"
    and "h' \<noteq> h \<Longrightarrow> elements (useEffect_cleanup props cell st) ! h' = elements st ! h'"
    and "h < length (elements st) \<Longrightarrow>
           el_listeners (elements (useEffect_cleanup props cell st) ! h) =
             filter (\<lambda>l. l \<notin> set ((case onLoad props of Some f \<Rightarrow> [(''load'', f)] | None \<Rightarrow> []) @
                                  (case onError props of Some f \<Rightarrow> [(''error'', f)] | None \<Rightarrow> [])))
               (el_listeners (elements st ! h))"
    and "el_attributes (elements (useEffect_cleanup props cell st) ! h) =
           el_attributes (elements st ! h)"
    and "el_textContent (elements (useEffect_cleanup props cell st) ! h) =
           el_textContent (elements st ! h)"
  using assms
  by (auto simp: useEffect_cleanup_def Let_def removeEventListener_nth removeAll_filter_not_eq
      split: option.splits intro: filter_cong)

lemma idle_run:
  assumes "i < length (idleCallbacks s)" and "idleCallbacks s ! i = (cell, props)"
  shows "runIdleCallback i s =
           assign_script cell
             (injectScript props
                (s\<lparr>idleCallbacks := take i (idleCallbacks s) @ drop (Suc i) (idleCallbacks s)\<rparr>))"
  using assms by (simp add: runIdleCallback_def)

lemma idle_run_frame:
  assumes "i < length (idleCallbacks s)" and "idleCallbacks s ! i = (cell, props)"
  shows "cache_key props \<in> scriptCache s \<Longrightarrow>
           body (runIdleCallback i s) = body s \<and> calls (runIdleCallback i s) = calls s \<and>
           elements (runIdleCallback i s) = elements s \<and>
           scriptCache (runIdleCallback i s) = scriptCache s"
    and "cache_key props \<notin> scriptCache s \<Longrightarrow>
           body (runIdleCallback i s) = body s @ [length (elements s)] \<and>
           scriptCache (runIdleCallback i s) = insert (cache_key props) (scriptCache s) \<and>
           (cell < length (scriptCells s) \<longrightarrow>
              read_script (runIdleCallback i s) cell = Some (length (elements s)))"
proof -
  let ?s = "s\<lparr>idleCallbacks := take i (idleCallbacks s) @ drop (Suc i) (idleCallbacks s)\<rparr>"
  note run = idle_run [OF assms]
  show "body (runIdleCallback i s) = body s \<and> calls (runIdleCallback i s) = calls s \<and>
      elements (runIdleCallback i s) = elements s \<and>
      scriptCache (runIdleCallback i s) = scriptCache s"
    if "cache_key props \<in> scriptCache s"
  proof -
    have "cache_key props \<in> scriptCache ?s" using that by simp
    then show ?thesis by (simp add: run injectScript_hit)
  qed
  show "body (runIdleCallback i s) = body s @ [length (elements s)] \<and>
      scriptCache (runIdleCallback i s) = insert (cache_key props) (scriptCache s) \<and>
      (cell < length (scriptCells s) \<longrightarrow>
         read_script (runIdleCallback i s) cell = Some (length (elements s)))"
    if "cache_key props \<notin> scriptCache s"
  proof -
    have miss: "cache_key props \<notin> scriptCache ?s" using that by simp
    show ?thesis
      using injectScript_miss_frame [OF miss]
      by (simp add: run read_script_def)
  qed
qed

section \<open>Properties\<close>

text \<open>
  C6. For every input the resolved inline body is the inner value of the raw-HTML setter
  if that value is present and not empty, else the children if present, else the empty
  string; the raw-HTML value takes precedence over the children.
\<close>

theorem resolveInlineScript_precedence:
  "resolveInlineScript props = inlineBody_spec props"
  by (simp add: resolveInlineScript_def inlineBody_spec_def
      split: option.splits inner_html.splits)

text \<open>
  C10. \<^verbatim>\<open>injectScript\<close> returns \<^verbatim>\<open>null\<close> exactly when the cache already holds the key of
  the call, the key being the id when it is a non-empty string and the source otherwise.
  When it returns \<^verbatim>\<open>null\<close> the page is unchanged: no element is created, no attribute
  set, the cache as it was. Otherwise it returns the element it has just created, and
  that element is the one appended to the body, by the last call it makes.
\<close>

theorem injectScript_null_iff_cached:
  "cache_key props =
     (case id_attr props of
        Some i \<Rightarrow> (if i \<noteq> [] then Some i else src props)
      | None \<Rightarrow> src props) \<and>
   (fst (injectScript props st) = None \<longleftrightarrow> cache_key props \<in> scriptCache st) \<and>
   (cache_key props \<in> scriptCache st \<longrightarrow> injectScript props st = (None, st)) \<and>
   (cache_key props \<notin> scriptCache st \<longrightarrow>
      fst (injectScript props st) = Some (length (elements st)) \<and>
      length (elements (snd (injectScript props st))) = Suc (length (elements st)) \<and>
      CreateElement (length (elements st)) \<in> set (calls (snd (injectScript props st))) \<and>
      body (snd (injectScript props st)) = body st @ [length (elements st)] \<and>
      last (calls (snd (injectScript props st))) = AppendChild (length (elements st)))"
proof -
  have key: "cache_key props =
     (case id_attr props of
        Some i \<Rightarrow> (if i \<noteq> [] then Some i else src props)
      | None \<Rightarrow> src props)"
    by (simp add: cache_key_def js_or_def split: option.splits)
  have hit: "cache_key props \<in> scriptCache st \<Longrightarrow> injectScript props st = (None, st)"
    by (rule injectScript_hit)
  have miss: "fst (injectScript props st) = Some (length (elements st)) \<and>
      length (elements (snd (injectScript props st))) = Suc (length (elements st)) \<and>
      CreateElement (length (elements st)) \<in> set (calls (snd (injectScript props st))) \<and>
      body (snd (injectScript props st)) = body st @ [length (elements st)] \<and>
      last (calls (snd (injectScript props st))) = AppendChild (length (elements st))"
    if "cache_key props \<notin> scriptCache st"
    using that by (simp add: injectScript_miss_frame injectScript_miss_calls)
  have iff: "fst (injectScript props st) = None \<longleftrightarrow> cache_key props \<in> scriptCache st"
    using hit miss by (cases "cache_key props \<in> scriptCache st") simp_all
  show ?thesis using key hit miss iff by blast
qed

theorem injectScript_null_iff_cached_witness:
  "cache_key (no_props\<lparr>src := Some ''a.js''\<rparr>)
     \<in> scriptCache ((fresh_page ''/'' [])\<lparr>scriptCache := {Some ''a.js''}\<rparr>) \<and>
   injectScript (no_props\<lparr>src := Some ''a.js''\<rparr>)
       ((fresh_page ''/'' [])\<lparr>scriptCache := {Some ''a.js''}\<rparr>) =
     (None, (fresh_page ''/'' [])\<lparr>scriptCache := {Some ''a.js''}\<rparr>) \<and>
   cache_key (no_props\<lparr>src := Some ''a.js''\<rparr>) \<notin> scriptCache (fresh_page ''/'' []) \<and>
   fst (injectScript (no_props\<lparr>src := Some ''a.js''\<rparr>) (fresh_page ''/'' [])) = Some 0 \<and>
   body (snd (injectScript (no_props\<lparr>src := Some ''a.js''\<rparr>) (fresh_page ''/'' []))) = [0]"
proof -
  have hit: "cache_key (no_props\<lparr>src := Some ''a.js''\<rparr>)
      \<in> scriptCache ((fresh_page ''/'' [])\<lparr>scriptCache := {Some ''a.js''}\<rparr>)"
    by (simp add: cache_key_def js_or_def no_props_def)
  have miss: "cache_key (no_props\<lparr>src := Some ''a.js''\<rparr>) \<notin> scriptCache (fresh_page ''/'' [])"
    by (simp add: fresh_page_def)
  have empty: "elements (fresh_page ''/'' []) = []" "body (fresh_page ''/'' []) = []"
    by (simp_all add: fresh_page_def)
  show ?thesis
    using hit miss empty
      injectScript_null_iff_cached [of "no_props\<lparr>src := Some ''a.js''\<rparr>"
        "(fresh_page ''/'' [])\<lparr>scriptCache := {Some ''a.js''}\<rparr>"]
      injectScript_null_iff_cached [of "no_props\<lparr>src := Some ''a.js''\<rparr>" "fresh_page ''/'' []"]
    by simp
qed

text \<open>
  C1. Two calls of \<^verbatim>\<open>injectScript\<close> with the same key \<open>K\<close>, the first made when the
  cache does not hold \<open>K\<close>: the first creates an element and returns it, the second
  returns \<^verbatim>\<open>null\<close> and changes nothing, so exactly one element has been appended to the
  body (one \<^verbatim>\<open>appendChild\<close> call) and the cache has gained exactly the entry \<open>K\<close>. No
  later event (a mount, an unmount, an idle callback) removes \<open>K\<close> from the cache, so
  after any run of events a call with key \<open>K\<close> is a no-op and a component mounting with
  key \<open>K\<close> leaves the document as it is.
\<close>

theorem dedup_idempotence:
  assumes "cache_key p1 = K" and "cache_key p2 = K" and "K \<notin> scriptCache st"
  shows "(let h = length (elements st);
              (r1, st1) = injectScript p1 st;
              (r2, st2) = injectScript p2 st1
          in r1 = Some h \<and> r2 = None \<and> st2 = st1 \<and>
             body st2 = body st @ [h] \<and>
             filter is_append (calls st2) = filter is_append (calls st) @ [AppendChild h] \<and>
             scriptCache st2 = insert K (scriptCache st) \<and>
             (\<forall>evs. K \<in> scriptCache (run evs st2)) \<and>
             (\<forall>evs p. cache_key p = K \<longrightarrow>
                injectScript p (run evs st2) = (None, run evs st2) \<and>
                body (fire (Mount p) (run evs st2)) = body (run evs st2) \<and>
                calls (fire (Mount p) (run evs st2)) = calls (run evs st2)))"
proof -
  define st1 where "st1 = snd (injectScript p1 st)"
  have miss: "cache_key p1 \<notin> scriptCache st"
    using assms by simp
  have r1: "fst (injectScript p1 st) = Some (length (elements st))"
    by (rule injectScript_miss_frame(1) [OF miss])
  have cache1: "scriptCache st1 = insert K (scriptCache st)"
    unfolding st1_def using assms(1) by (simp add: injectScript_miss_frame(3) [OF miss])
  have body1: "body st1 = body st @ [length (elements st)]"
    unfolding st1_def by (rule injectScript_miss_frame(2) [OF miss])
  have calls1: "filter is_append (calls st1) =
      filter is_append (calls st) @ [AppendChild (length (elements st))]"
    unfolding st1_def by (rule injectScript_miss_appends [OF miss])
  have second: "injectScript p2 st1 = (None, st1)"
    by (rule injectScript_hit) (simp add: assms(2) cache1)
  have kept: "K \<in> scriptCache (run evs st1)" for evs
    using run_cache [of st1 evs] cache1 by auto
  have later: "injectScript p (run evs st1) = (None, run evs st1) \<and>
      body (fire (Mount p) (run evs st1)) = body (run evs st1) \<and>
      calls (fire (Mount p) (run evs st1)) = calls (run evs st1)"
    if "cache_key p = K" for evs p
  proof -
    have "cache_key p \<in> scriptCache (run evs st1)"
      using that kept by simp
    then show ?thesis
      by (simp add: injectScript_hit mount_cached_frame)
  qed
  show ?thesis
    using r1 cache1 body1 calls1 second kept later
    by (simp add: Let_def split_beta st1_def)
qed

theorem dedup_idempotence_witness:
  "cache_key (no_props\<lparr>src := Some ''a.js''\<rparr>) = Some ''a.js'' \<and>
   Some ''a.js'' \<notin> scriptCache (fresh_page ''/'' []) \<and>
   body (snd (injectScript (no_props\<lparr>src := Some ''a.js''\<rparr>)
                (snd (injectScript (no_props\<lparr>src := Some ''a.js''\<rparr>) (fresh_page ''/'' [])))))
     = [0] \<and>
   scriptCache (snd (injectScript (no_props\<lparr>src := Some ''a.js''\<rparr>)
                (snd (injectScript (no_props\<lparr>src := Some ''a.js''\<rparr>) (fresh_page ''/'' [])))))
     = {Some ''a.js''}"
proof -
  have key: "cache_key (no_props\<lparr>src := Some ''a.js''\<rparr>) = Some ''a.js''"
    by (simp add: cache_key_def js_or_def no_props_def)
  have fresh: "Some ''a.js'' \<notin> scriptCache (fresh_page ''/'' [])"
    by (simp add: fresh_page_def)
  have empty: "elements (fresh_page ''/'' []) = []" "body (fresh_page ''/'' []) = []"
    "scriptCache (fresh_page ''/'' []) = {}"
    by (simp_all add: fresh_page_def)
  show ?thesis
    using key fresh empty dedup_idempotence [OF key key fresh]
    by (auto simp: Let_def split_beta)
qed

text \<open>
  C4. Props with neither an id nor a source have the key \<^verbatim>\<open>undefined\<close>, and the cache
  keeps that key like any other: on a new page the first call for such props inserts
  its element and records \<^verbatim>\<open>undefined\<close>, and the second call, for a different inline
  script, finds it there, returns \<^verbatim>\<open>null\<close> and appends nothing. The two calls are not
  treated as distinct.
\<close>

theorem keyless_second_script_dropped:
  "cache_key (no_props\<lparr>children := Some ''a()''\<rparr>) = None \<and>
   cache_key (no_props\<lparr>children := Some ''b()''\<rparr>) = None \<and>
   fst (injectScript (no_props\<lparr>children := Some ''a()''\<rparr>) (fresh_page ''/'' [])) = Some 0 \<and>
   fst (injectScript (no_props\<lparr>children := Some ''b()''\<rparr>)
          (snd (injectScript (no_props\<lparr>children := Some ''a()''\<rparr>) (fresh_page ''/'' [])))) = None \<and>
   body (snd (injectScript (no_props\<lparr>children := Some ''b()''\<rparr>)
          (snd (injectScript (no_props\<lparr>children := Some ''a()''\<rparr>) (fresh_page ''/'' []))))) = [0]"
proof -
  have a: "cache_key (no_props\<lparr>children := Some ''a()''\<rparr>) = None"
    and b: "cache_key (no_props\<lparr>children := Some ''b()''\<rparr>) = None"
    by (simp_all add: cache_key_def js_or_def no_props_def)
  have miss: "cache_key (no_props\<lparr>children := Some ''a()''\<rparr>) \<notin> scriptCache (fresh_page ''/'' [])"
    by (simp add: fresh_page_def)
  have hit: "cache_key (no_props\<lparr>children := Some ''b()''\<rparr>) \<in>
      scriptCache (snd (injectScript (no_props\<lparr>children := Some ''a()''\<rparr>) (fresh_page ''/'' [])))"
    by (simp add: injectScript_cache a b)
  show ?thesis
    using a b injectScript_miss_frame(1,2) [OF miss] injectScript_hit [OF hit]
    by (simp add: fresh_page_def)
qed

text \<open>
  C5. With the strategy experimental-partytown the component always returns a script
  element whose \<^verbatim>\<open>type\<close> is \<^verbatim>\<open>text/partytown\<close>, whatever type the props give and
  whatever the state of the page (the cache and the performance entries are not read);
  its effect makes no call on the document, schedules nothing and leaves the cache as
  it is, and so does its cleanup.
\<close>

theorem partytown_always_declarative:
  assumes "strategy props = Some experimentalPartytown"
  shows "(\<exists>ps ch. Script_render props = ScriptTag ps ch \<and>
            map_of ps ''type'' = Some (JsxString ''text/partytown'')) \<and>
         useEffect_mount props st =
           (length (scriptCells st), st\<lparr>scriptCells := scriptCells st @ [None]\<rparr>) \<and>
         useEffect_cleanup props (fst (useEffect_mount props st)) (snd (useEffect_mount props st)) =
           snd (useEffect_mount props st)"
proof -
  have strat: "strategy_or_default props = experimentalPartytown"
    using assms by (simp add: strategy_or_default_def)
  have dist: "distinct (map fst (AList.update ''type'' ''text/partytown'' (resolveAttributes props)))"
    by (simp add: distinct_update resolveAttributes_distinct)
  have "map_of (tag_props (Script_render props)) ''type'' = Some (JsxString ''text/partytown'')"
    using strat by (simp add: Script_render_def Let_def spread_lookup [OF dist] update_conv')
  moreover have "Script_render props \<noteq> Fragment"
    using strat by (simp add: Script_render_def Let_def)
  ultimately have render: "\<exists>ps ch. Script_render props = ScriptTag ps ch \<and>
      map_of ps ''type'' = Some (JsxString ''text/partytown'')"
    by (cases "Script_render props") simp_all
  have mount: "useEffect_mount props st =
      (length (scriptCells st), st\<lparr>scriptCells := scriptCells st @ [None]\<rparr>)"
    by (rule mount_without_injection [OF strat])
  have "useEffect_cleanup props (length (scriptCells st))
      (st\<lparr>scriptCells := scriptCells st @ [None]\<rparr>) = st\<lparr>scriptCells := scriptCells st @ [None]\<rparr>"
    by (rule cleanup_without_script) (rule read_new_cell)
  with render mount show ?thesis by simp
qed

theorem partytown_always_declarative_witness:
  "strategy (no_props\<lparr>src := Some ''b.js'', strategy := Some experimentalPartytown,
      htmlAttributes := [(''type'', ''module'')]\<rparr>) = Some experimentalPartytown \<and>
   map_of (tag_props (Script_render (no_props\<lparr>src := Some ''b.js'',
      strategy := Some experimentalPartytown, htmlAttributes := [(''type'', ''module'')]\<rparr>))) ''type''
     = Some (JsxString ''text/partytown'') \<and>
   snd (useEffect_mount (no_props\<lparr>src := Some ''b.js'', strategy := Some experimentalPartytown,
      htmlAttributes := [(''type'', ''module'')]\<rparr>) (fresh_page ''/'' [])) =
     (fresh_page ''/'' [])\<lparr>scriptCells := [None]\<rparr>"
proof -
  have s: "strategy (no_props\<lparr>src := Some ''b.js'', strategy := Some experimentalPartytown,
      htmlAttributes := [(''type'', ''module'')]\<rparr>) = Some experimentalPartytown"
    by simp
  have c: "scriptCells (fresh_page ''/'' []) = []"
    by (simp add: fresh_page_def)
  show ?thesis
    using s c partytown_always_declarative [OF s, of "fresh_page ''/'' []"]
    by auto
qed

text \<open>
  C2. Every props value has exactly one strategy (post-hydrate when none is given).
  The strategies post-hydrate and idle return the empty fragment, and only they do;
  pre-hydrate and experimental-partytown return a script element. The effect of
  experimental-partytown makes no call on the document. The effect of pre-hydrate makes
  none when the location of the page has a performance entry; when it has none, the
  effect is a call of \<^verbatim>\<open>injectScript\<close>, as for post-hydrate. The effect of idle only
  hands a callback to the scheduler.
\<close>

theorem strategy_partition:
  "(Script_render props = Fragment \<longleftrightarrow> strategy_or_default props \<in> {postHydrate, idle}) \<and>
   (Script_render props \<noteq> Fragment \<longleftrightarrow>
      strategy_or_default props \<in> {preHydrate, experimentalPartytown}) \<and>
   (strategy_or_default props = experimentalPartytown \<longrightarrow>
      snd (useEffect_mount props st) = st\<lparr>scriptCells := scriptCells st @ [None]\<rparr>) \<and>
   (strategy_or_default props = preHydrate \<longrightarrow> getEntriesByName (href st) st \<noteq> [] \<longrightarrow>
      snd (useEffect_mount props st) = st\<lparr>scriptCells := scriptCells st @ [None]\<rparr>) \<and>
   (strategy_or_default props = preHydrate \<longrightarrow> getEntriesByName (href st) st = [] \<longrightarrow>
      snd (useEffect_mount props st) =
        assign_script (length (scriptCells st))
          (injectScript props (st\<lparr>scriptCells := scriptCells st @ [None]\<rparr>))) \<and>
   (strategy_or_default props = postHydrate \<longrightarrow>
      snd (useEffect_mount props st) =
        assign_script (length (scriptCells st))
          (injectScript props (st\<lparr>scriptCells := scriptCells st @ [None]\<rparr>))) \<and>
   (strategy_or_default props = idle \<longrightarrow>
      snd (useEffect_mount props st) =
        st\<lparr>scriptCells := scriptCells st @ [None],
           idleCallbacks := idleCallbacks st @ [(length (scriptCells st), props)]\<rparr>)"
proof -
  have "Script_render props \<noteq> Fragment \<longleftrightarrow>
      strategy_or_default props \<in> {preHydrate, experimentalPartytown}"
    by (cases "strategy_or_default props") (simp_all add: render_declarative)
  then show ?thesis
    by (simp add: render_declarative mount_without_injection mount_preHydrate mount_postHydrate
        mount_idle)
qed

theorem strategy_partition_witness:
  "Script_render (no_props\<lparr>src := Some ''a.js''\<rparr>) = Fragment \<and>
   Script_render (no_props\<lparr>src := Some ''a.js'', strategy := Some preHydrate\<rparr>) \<noteq> Fragment \<and>
   snd (useEffect_mount (no_props\<lparr>src := Some ''a.js'', strategy := Some experimentalPartytown\<rparr>)
          (fresh_page ''/page'' [])) = (fresh_page ''/page'' [])\<lparr>scriptCells := [None]\<rparr> \<and>
   snd (useEffect_mount (no_props\<lparr>src := Some ''a.js'', strategy := Some preHydrate\<rparr>)
          (fresh_page ''/page'' [''/page''])) = (fresh_page ''/page'' [''/page''])\<lparr>scriptCells := [None]\<rparr> \<and>
   snd (useEffect_mount (no_props\<lparr>src := Some ''a.js'', strategy := Some preHydrate\<rparr>)
          (fresh_page ''/page'' [])) =
     assign_script 0 (injectScript (no_props\<lparr>src := Some ''a.js'', strategy := Some preHydrate\<rparr>)
        ((fresh_page ''/page'' [])\<lparr>scriptCells := [None]\<rparr>)) \<and>
   snd (useEffect_mount (no_props\<lparr>src := Some ''a.js''\<rparr>) (fresh_page ''/page'' [])) =
     assign_script 0 (injectScript (no_props\<lparr>src := Some ''a.js''\<rparr>)
        ((fresh_page ''/page'' [])\<lparr>scriptCells := [None]\<rparr>)) \<and>
   snd (useEffect_mount (no_props\<lparr>src := Some ''a.js'', strategy := Some idle\<rparr>)
          (fresh_page ''/page'' [])) =
     (fresh_page ''/page'' [])\<lparr>scriptCells := [None],
        idleCallbacks := [(0, no_props\<lparr>src := Some ''a.js'', strategy := Some idle\<rparr>)]\<rparr>"
proof -
  have s: "strategy_or_default (no_props\<lparr>src := Some ''a.js''\<rparr>) = postHydrate"
    "strategy_or_default (no_props\<lparr>src := Some ''a.js'', strategy := Some preHydrate\<rparr>) = preHydrate"
    "strategy_or_default (no_props\<lparr>src := Some ''a.js'', strategy := Some experimentalPartytown\<rparr>)
       = experimentalPartytown"
    "strategy_or_default (no_props\<lparr>src := Some ''a.js'', strategy := Some idle\<rparr>) = idle"
    by (simp_all add: strategy_or_default_def no_props_def)
  have e: "getEntriesByName (href (fresh_page ''/page'' [''/page''])) (fresh_page ''/page'' [''/page'']) \<noteq> []"
    "getEntriesByName (href (fresh_page ''/page'' [])) (fresh_page ''/page'' []) = []"
    by (simp_all add: getEntriesByName_def fresh_page_def)
  have c: "scriptCells (fresh_page ''/page'' []) = []" "scriptCells (fresh_page ''/page'' [''/page'']) = []"
    "idleCallbacks (fresh_page ''/page'' []) = []"
    by (simp_all add: fresh_page_def)
  show ?thesis
    using s e c
      strategy_partition [of "no_props\<lparr>src := Some ''a.js''\<rparr>" "fresh_page ''/page'' []"]
      strategy_partition [of "no_props\<lparr>src := Some ''a.js'', strategy := Some preHydrate\<rparr>"
        "fresh_page ''/page'' [''/page'']"]
      strategy_partition [of "no_props\<lparr>src := Some ''a.js'', strategy := Some preHydrate\<rparr>"
        "fresh_page ''/page'' []"]
      strategy_partition [of "no_props\<lparr>src := Some ''a.js'', strategy := Some experimentalPartytown\<rparr>"
        "fresh_page ''/page'' []"]
      strategy_partition [of "no_props\<lparr>src := Some ''a.js'', strategy := Some idle\<rparr>"
        "fresh_page ''/page'' []"]
    by simp
qed

text \<open>
  C2, as first stated, said that pre-hydrate never changes the document. On a page whose
  location has no performance entry, mounting a pre-hydrate script both returns a script
  element and appends an element to the body.
\<close>

theorem declarative_never_mutates_counterexample:
  "strategy_or_default (no_props\<lparr>src := Some ''a.js'', strategy := Some preHydrate\<rparr>) = preHydrate \<and>
   Script_render (no_props\<lparr>src := Some ''a.js'', strategy := Some preHydrate\<rparr>) \<noteq> Fragment \<and>
   body (fresh_page ''/page'' []) = [] \<and>
   body (snd (useEffect_mount (no_props\<lparr>src := Some ''a.js'', strategy := Some preHydrate\<rparr>)
                (fresh_page ''/page'' []))) = [0] \<and>
   AppendChild 0 \<in> set (calls (snd (useEffect_mount
       (no_props\<lparr>src := Some ''a.js'', strategy := Some preHydrate\<rparr>) (fresh_page ''/page'' []))))"
proof -
  let ?p = "no_props\<lparr>src := Some ''a.js'', strategy := Some preHydrate\<rparr>"
  let ?st = "(fresh_page ''/page'' [])\<lparr>scriptCells := scriptCells (fresh_page ''/page'' []) @ [None]\<rparr>"
  have strat: "strategy_or_default ?p = preHydrate"
    by (simp add: strategy_or_default_def)
  have miss: "cache_key ?p \<notin> scriptCache ?st"
    by (simp add: fresh_page_def)
  have none: "getEntriesByName (href (fresh_page ''/page'' [])) (fresh_page ''/page'' []) = []"
    by (simp add: getEntriesByName_def fresh_page_def)
  show ?thesis
    using strat none injectScript_miss_frame(2) [OF miss] injectScript_miss_calls [OF miss]
    by (simp add: mount_preHydrate render_declarative fresh_page_def)
qed

text \<open>
  C3. A pre-hydrate component always returns its script element. Its effect asks for
  the performance entries named by the location of the page, not by the source of the
  script: with such an entry nothing is inserted, without one \<^verbatim>\<open>injectScript\<close> is called.
  For every other strategy the effect does not depend on the location or on the
  performance entries.
\<close>

theorem prehydrate_queries_location:
  "(strategy_or_default props = preHydrate \<longrightarrow>
      Script_render props \<noteq> Fragment \<and>
      snd (useEffect_mount props st) =
        (if getEntriesByName (href st) st = []
         then assign_script (length (scriptCells st))
                (injectScript props (st\<lparr>scriptCells := scriptCells st @ [None]\<rparr>))
         else st\<lparr>scriptCells := scriptCells st @ [None]\<rparr>)) \<and>
   (strategy_or_default props \<noteq> preHydrate \<longrightarrow>
      useEffect_mount props (st\<lparr>href := u, performanceEntries := es\<rparr>) =
        (fst (useEffect_mount props st),
         (snd (useEffect_mount props st))\<lparr>href := u, performanceEntries := es\<rparr>))"
  by (simp add: mount_preHydrate mount_location render_declarative)

theorem prehydrate_queries_location_witness:
  "strategy_or_default (no_props\<lparr>src := Some ''a.js'', strategy := Some preHydrate\<rparr>) = preHydrate \<and>
   snd (useEffect_mount (no_props\<lparr>src := Some ''a.js'', strategy := Some preHydrate\<rparr>)
          (fresh_page ''/page'' [''/page''])) = (fresh_page ''/page'' [''/page''])\<lparr>scriptCells := [None]\<rparr> \<and>
   strategy_or_default (no_props\<lparr>src := Some ''a.js''\<rparr>) \<noteq> preHydrate \<and>
   useEffect_mount (no_props\<lparr>src := Some ''a.js''\<rparr>)
       ((fresh_page ''/page'' [])\<lparr>href := ''/other'', performanceEntries := [''a.js'']\<rparr>) =
     (fst (useEffect_mount (no_props\<lparr>src := Some ''a.js''\<rparr>) (fresh_page ''/page'' [])),
      (snd (useEffect_mount (no_props\<lparr>src := Some ''a.js''\<rparr>) (fresh_page ''/page'' [])))
        \<lparr>href := ''/other'', performanceEntries := [''a.js'']\<rparr>)"
proof -
  have s: "strategy_or_default (no_props\<lparr>src := Some ''a.js'', strategy := Some preHydrate\<rparr>) = preHydrate"
    "strategy_or_default (no_props\<lparr>src := Some ''a.js''\<rparr>) \<noteq> preHydrate"
    by (simp_all add: strategy_or_default_def no_props_def)
  have e: "getEntriesByName (href (fresh_page ''/page'' [''/page''])) (fresh_page ''/page'' [''/page'']) \<noteq> []"
    by (simp add: getEntriesByName_def fresh_page_def)
  have c: "scriptCells (fresh_page ''/page'' [''/page'']) = []"
    by (simp add: fresh_page_def)
  show ?thesis
    using s e c
      prehydrate_queries_location [of "no_props\<lparr>src := Some ''a.js'', strategy := Some preHydrate\<rparr>"
        "fresh_page ''/page'' [''/page'']"]
      prehydrate_queries_location [where props = "no_props\<lparr>src := Some ''a.js''\<rparr>"
        and st = "fresh_page ''/page'' []" and u = "''/other''" and es = "[''a.js'']"]
    by simp
qed

text \<open>
  C3, as first stated, said that the script element is not returned when the source has
  already been loaded. Here the source has a performance entry, and the element is
  returned all the same; the location has none, so the script is inserted as well.
\<close>

theorem prehydrate_suppression_counterexample:
  "src (no_props\<lparr>src := Some ''a.js'', strategy := Some preHydrate\<rparr>) = Some ''a.js'' \<and>
   strategy_or_default (no_props\<lparr>src := Some ''a.js'', strategy := Some preHydrate\<rparr>) = preHydrate \<and>
   getEntriesByName ''a.js'' (fresh_page ''/page'' [''a.js'']) \<noteq> [] \<and>
   Script_render (no_props\<lparr>src := Some ''a.js'', strategy := Some preHydrate\<rparr>) \<noteq> Fragment \<and>
   body (snd (useEffect_mount (no_props\<lparr>src := Some ''a.js'', strategy := Some preHydrate\<rparr>)
                (fresh_page ''/page'' [''a.js'']))) = [0]"
proof -
  let ?p = "no_props\<lparr>src := Some ''a.js'', strategy := Some preHydrate\<rparr>"
  let ?st = "(fresh_page ''/page'' [''a.js''])
      \<lparr>scriptCells := scriptCells (fresh_page ''/page'' [''a.js'']) @ [None]\<rparr>"
  have strat: "strategy_or_default ?p = preHydrate"
    by (simp add: strategy_or_default_def)
  have miss: "cache_key ?p \<notin> scriptCache ?st"
    by (simp add: fresh_page_def)
  have none: "getEntriesByName (href (fresh_page ''/page'' [''a.js''])) (fresh_page ''/page'' [''a.js'']) = []"
    by (simp add: getEntriesByName_def fresh_page_def)
  have loaded: "getEntriesByName ''a.js'' (fresh_page ''/page'' [''a.js'']) \<noteq> []"
    by (simp add: getEntriesByName_def fresh_page_def)
  show ?thesis
    using strat none loaded injectScript_miss_frame(2) [OF miss]
    by (simp add: mount_preHydrate render_declarative fresh_page_def)
qed

text \<open>
  C7. In a props object (its keys distinct), every key that is not one of
  \<open>handledProps\<close> appears as an attribute, under the same name: on the element that
  \<^verbatim>\<open>injectScript\<close> inserts, with the value supplied; on the script element that
  \<^verbatim>\<open>Script\<close> returns too, with the value supplied, except that under
  experimental-partytown the attribute \<^verbatim>\<open>type\<close> is \<^verbatim>\<open>text/partytown\<close> whatever was
  supplied. No key of \<open>handledProps\<close> is among the attributes passed through.
\<close>

theorem attribute_passthrough:
  assumes "distinct (map fst (Object_entries props))"
    and "(k, v) \<in> set (Object_entries props)" and "k \<notin> handledProps"
  shows "(\<forall>st h st'. injectScript props st = (Some h, st') \<longrightarrow>
            map_of (el_attributes (elements st' ! h)) k = Some v) \<and>
         (\<forall>ps ch. Script_render props = ScriptTag ps ch \<longrightarrow>
            map_of ps k =
              Some (JsxString (if strategy_or_default props = experimentalPartytown \<and> k = ''type''
                               then ''text/partytown'' else v))) \<and>
         (\<forall>c \<in> handledProps. c \<notin> fst ` set (resolveAttributes props))"
proof -
  have supplied: "map_of (resolveAttributes props) k = Some v"
    by (rule resolveAttributes_supplied [OF assms])
  then have last: "map_of (rev (resolveAttributes props)) k = Some v"
    by (simp add: map_of_rev_distinct resolveAttributes_distinct)
  have not_src: "k \<noteq> ''src''"
    using assms(3) by (auto simp: handledProps_def)
  have inserted: "map_of (el_attributes (elements st' ! h)) k = Some v"
    if "injectScript props st = (Some h, st')" for st h st'
  proof -
    have miss: "cache_key props \<notin> scriptCache st"
      using that injectScript_hit [of props st] by auto
    have "h = length (elements st)" and "st' = snd (injectScript props st)"
      using that injectScript_miss_frame(1) [OF miss] by simp_all
    then show ?thesis
      using injectScript_miss_attributes [OF miss last not_src] by simp
  qed
  have produced: "map_of ps k =
      Some (JsxString (if strategy_or_default props = experimentalPartytown \<and> k = ''type''
                       then ''text/partytown'' else v))"
    if "Script_render props = ScriptTag ps ch" for ps ch
    by (rule render_passthrough [OF that supplied])
  have control: "\<forall>c \<in> handledProps. c \<notin> fst ` set (resolveAttributes props)"
    by (simp add: resolveAttributes_keys)
  show ?thesis
    using inserted produced control by blast
qed

theorem attribute_passthrough_witness:
  "distinct (map fst (Object_entries (no_props\<lparr>id_attr := Some ''x'', src := Some ''a.js'',
      strategy := Some preHydrate, htmlAttributes := [(''type'', ''module''), (''data-k'', ''1'')]\<rparr>))) \<and>
   (''type'', ''module'') \<in> set (Object_entries (no_props\<lparr>id_attr := Some ''x'', src := Some ''a.js'',
      strategy := Some preHydrate, htmlAttributes := [(''type'', ''module''), (''data-k'', ''1'')]\<rparr>)) \<and>
   ''type'' \<notin> handledProps \<and>
   map_of (el_attributes (elements (snd (injectScript (no_props\<lparr>id_attr := Some ''x'',
      src := Some ''a.js'', strategy := Some preHydrate,
      htmlAttributes := [(''type'', ''module''), (''data-k'', ''1'')]\<rparr>) (fresh_page ''/'' []))) ! 0))
     ''type'' = Some ''module'' \<and>
   map_of (tag_props (Script_render (no_props\<lparr>id_attr := Some ''x'', src := Some ''a.js'',
      strategy := Some preHydrate, htmlAttributes := [(''type'', ''module''), (''data-k'', ''1'')]\<rparr>)))
     ''type'' = Some (JsxString ''module'')"
proof -
  let ?p = "no_props\<lparr>id_attr := Some ''x'', src := Some ''a.js'', strategy := Some preHydrate,
      htmlAttributes := [(''type'', ''module''), (''data-k'', ''1'')]\<rparr>"
  have d: "distinct (map fst (Object_entries ?p))"
    by (simp add: Object_entries_def entry_def no_props_def)
  have m: "(''type'', ''module'') \<in> set (Object_entries ?p)"
    by (simp add: Object_entries_def entry_def no_props_def)
  have n: "''type'' \<notin> handledProps"
    by (simp add: handledProps_def)
  have s: "strategy_or_default ?p = preHydrate"
    by (simp add: strategy_or_default_def)
  have miss: "cache_key ?p \<notin> scriptCache (fresh_page ''/'' [])"
    by (simp add: fresh_page_def)
  have i: "injectScript ?p (fresh_page ''/'' []) = (Some 0, snd (injectScript ?p (fresh_page ''/'' [])))"
    using injectScript_miss_frame(1) [OF miss]
    by (simp add: fresh_page_def prod_eq_iff)
  have r: "Script_render ?p =
      ScriptTag (tag_props (Script_render ?p)) (tag_children (Script_render ?p))"
    using s by (cases "Script_render ?p") (simp_all add: render_declarative)
  show ?thesis
    using d m n s i r attribute_passthrough [OF d m n]
    by auto
qed

text \<open>
  C7, as first stated, had no exception. Under experimental-partytown a supplied
  \<^verbatim>\<open>type\<close> does not appear with its value on the element returned.
\<close>

theorem passthrough_type_counterexample:
  "(''type'', ''module'') \<in> set (Object_entries (no_props\<lparr>src := Some ''b.js'',
      strategy := Some experimentalPartytown, htmlAttributes := [(''type'', ''module'')]\<rparr>)) \<and>
   ''type'' \<notin> handledProps \<and>
   map_of (tag_props (Script_render (no_props\<lparr>src := Some ''b.js'',
      strategy := Some experimentalPartytown, htmlAttributes := [(''type'', ''module'')]\<rparr>))) ''type''
     = Some (JsxString ''text/partytown'') \<and>
   map_of (tag_props (Script_render (no_props\<lparr>src := Some ''b.js'',
      strategy := Some experimentalPartytown, htmlAttributes := [(''type'', ''module'')]\<rparr>))) ''type''
     \<noteq> Some (JsxString ''module'')"
  by (simp add: Object_entries_def entry_def no_props_def handledProps_def Script_render_def
      strategy_or_default_def resolveInlineScript_def resolveAttributes_def)

text \<open>
  C8. Take a call of \<^verbatim>\<open>injectScript\<close> that created the element \<open>h\<close>, and an unmount at
  which the \<^verbatim>\<open>script\<close> variable of the effect holds \<open>h\<close>. The cleanup then issues
  exactly one \<^verbatim>\<open>removeEventListener\<close> for each listener the insertion attached (one per
  handler supplied, and no other), in the same order, and after them one \<^verbatim>\<open>remove\<close> of \<open>h\<close>, and
  nothing else: \<open>h\<close> leaves the body, loses those listeners, keeps its attributes and
  text, and no other element changes. When the variable holds no element (the cache
  suppressed the creation), the cleanup changes nothing.
\<close>

theorem teardown_symmetry:
  assumes "injectScript props st0 = (Some h, st1)" and "read_script st cell = Some h"
  shows "el_listeners (elements st1 ! h) =
           (case onLoad props of Some f \<Rightarrow> [(''load'', f)] | None \<Rightarrow> []) @
           (case onError props of Some f \<Rightarrow> [(''error'', f)] | None \<Rightarrow> []) \<and>
         calls (useEffect_cleanup props cell st) =
           calls st @
           map (\<lambda>(kind, f). RemoveEventListener h kind f) (el_listeners (elements st1 ! h)) @
           [Remove h] \<and>
         body (useEffect_cleanup props cell st) = removeAll h (body st) \<and>
         length (elements (useEffect_cleanup props cell st)) = length (elements st) \<and>
         (\<forall>h'. h' \<noteq> h \<longrightarrow> elements (useEffect_cleanup props cell st) ! h' = elements st ! h') \<and>
         (h < length (elements st) \<longrightarrow>
            el_listeners (elements (useEffect_cleanup props cell st) ! h) =
              filter (\<lambda>l. l \<notin> set (el_listeners (elements st1 ! h)))
                (el_listeners (elements st ! h))) \<and>
         el_attributes (elements (useEffect_cleanup props cell st) ! h) =
           el_attributes (elements st ! h) \<and>
         el_textContent (elements (useEffect_cleanup props cell st) ! h) =
           el_textContent (elements st ! h) \<and>
         (\<forall>s c. read_script s c = None \<longrightarrow> useEffect_cleanup props c s = s)"
proof -
  have miss: "cache_key props \<notin> scriptCache st0"
    using assms(1) injectScript_hit [of props st0] by auto
  have "h = length (elements st0)" and "st1 = snd (injectScript props st0)"
    using assms(1) injectScript_miss_frame(1) [OF miss] by simp_all
  then have attached: "el_listeners (elements st1 ! h) =
      (case onLoad props of Some f \<Rightarrow> [(''load'', f)] | None \<Rightarrow> []) @
      (case onError props of Some f \<Rightarrow> [(''error'', f)] | None \<Rightarrow> [])"
    using injectScript_miss_listeners [OF miss] by simp
  have detached: "map (\<lambda>(kind, f). RemoveEventListener h kind f) (el_listeners (elements st1 ! h)) =
      (case onLoad props of Some f \<Rightarrow> [RemoveEventListener h ''load'' f] | None \<Rightarrow> []) @
      (case onError props of Some f \<Rightarrow> [RemoveEventListener h ''error'' f] | None \<Rightarrow> [])"
    by (simp add: attached split: option.splits)
  note cleanup = cleanup_with_script [OF assms(2), where props = props]
  have calls: "calls (useEffect_cleanup props cell st) =
      calls st @
      map (\<lambda>(kind, f). RemoveEventListener h kind f) (el_listeners (elements st1 ! h)) @
      [Remove h]"
    by (simp only: cleanup(1) detached append_assoc)
  have listeners: "el_listeners (elements (useEffect_cleanup props cell st) ! h) =
      filter (\<lambda>l. l \<notin> set (el_listeners (elements st1 ! h))) (el_listeners (elements st ! h))"
    if "h < length (elements st)"
    by (simp only: cleanup(7) [OF that] attached)
  have others: "\<forall>h'. h' \<noteq> h \<longrightarrow>
      elements (useEffect_cleanup props cell st) ! h' = elements st ! h'"
    by (simp add: cleanup(6))
  have none: "\<forall>s c. read_script s c = None \<longrightarrow> useEffect_cleanup props c s = s"
    by (simp add: cleanup_without_script)
  show ?thesis
    using attached calls cleanup(2) cleanup(5) others listeners cleanup(8) cleanup(9) none
    by blast
qed


theorem teardown_symmetry_witness:
  "injectScript (no_props\<lparr>src := Some ''a.js'', onLoad := Some 7, onError := Some 8\<rparr>)
       ((fresh_page ''/'' [])\<lparr>scriptCells := [None]\<rparr>) =
     (Some 0, snd (injectScript (no_props\<lparr>src := Some ''a.js'', onLoad := Some 7, onError := Some 8\<rparr>)
                     ((fresh_page ''/'' [])\<lparr>scriptCells := [None]\<rparr>))) \<and>
   read_script (snd (useEffect_mount
       (no_props\<lparr>src := Some ''a.js'', onLoad := Some 7, onError := Some 8\<rparr>) (fresh_page ''/'' []))) 0
     = Some 0 \<and>
   calls (useEffect_cleanup (no_props\<lparr>src := Some ''a.js'', onLoad := Some 7, onError := Some 8\<rparr>) 0
       (snd (useEffect_mount (no_props\<lparr>src := Some ''a.js'', onLoad := Some 7, onError := Some 8\<rparr>)
          (fresh_page ''/'' [])))) =
     [CreateElement 0, SetAttribute 0 ''data-strategy'' ''post-hydrate'',
      SetAttribute 0 ''src'' ''a.js'', AddEventListener 0 ''load'' 7,
      AddEventListener 0 ''error'' 8, AppendChild 0,
      RemoveEventListener 0 ''load'' 7, RemoveEventListener 0 ''error'' 8, Remove 0] \<and>
   body (useEffect_cleanup (no_props\<lparr>src := Some ''a.js'', onLoad := Some 7, onError := Some 8\<rparr>) 0
       (snd (useEffect_mount (no_props\<lparr>src := Some ''a.js'', onLoad := Some 7, onError := Some 8\<rparr>)
          (fresh_page ''/'' [])))) = []"
proof -
  let ?p = "no_props\<lparr>src := Some ''a.js'', onLoad := Some 7, onError := Some 8\<rparr>"
  let ?s0 = "(fresh_page ''/'' [])\<lparr>scriptCells := [None]\<rparr>"
  have miss: "cache_key ?p \<notin> scriptCache ?s0"
    by simp
  note frame = injectScript_miss_frame [OF miss]
  have created: "injectScript ?p ?s0 = (Some 0, snd (injectScript ?p ?s0))"
    using frame(1) by (simp add: prod_eq_iff)
  have mount: "snd (useEffect_mount ?p (fresh_page ''/'' [])) = assign_script 0 (injectScript ?p ?s0)"
    by (simp add: mount_postHydrate strategy_or_default_def)
  have owned: "read_script (snd (useEffect_mount ?p (fresh_page ''/'' []))) 0 = Some 0"
    using frame(1) frame(4) by (simp add: mount read_script_def)
  have attached: "el_listeners (elements (snd (injectScript ?p ?s0)) ! 0) = [(''load'', 7), (''error'', 8)]"
    using injectScript_miss_listeners [OF miss] by simp
  have before: "calls (snd (useEffect_mount ?p (fresh_page ''/'' []))) =
      [CreateElement 0, SetAttribute 0 ''data-strategy'' ''post-hydrate'',
       SetAttribute 0 ''src'' ''a.js'', AddEventListener 0 ''load'' 7,
       AddEventListener 0 ''error'' 8, AppendChild 0]"
    using injectScript_miss_calls [OF miss]
    by (simp add: mount strategy_or_default_def resolveAttributes_def
        Object_entries_def entry_def resolveInlineScript_def handledProps_def)
  have body: "body (snd (useEffect_mount ?p (fresh_page ''/'' []))) = [0]"
    using frame(2) by (simp add: mount)
  show ?thesis
    using created owned attached before body teardown_symmetry [OF created owned]
    by simp
qed

text \<open>
  C9. With the strategy idle, mounting inserts nothing: it only hands the scheduler a
  callback. The callback calls \<^verbatim>\<open>injectScript\<close> when it runs, so the cache is looked up
  in the state of that moment: if the key is in the cache by then, the document is left
  alone, and if it is not, the element is appended. So when the component unmounts
  before the callback runs, the cleanup finds no element and does nothing, and the
  callback, when it runs, still inserts the script (the key not being in the cache): the
  body gains that one element, and the cache the key, though the component is gone.
\<close>

theorem idle_insertion_at_callback:
  assumes "strategy props = Some idle"
  shows "(let cell = length (scriptCells st);
              i = length (idleCallbacks st);
              mounted = snd (useEffect_mount props st);
              unmounted = useEffect_cleanup props cell mounted;
              fired = runIdleCallback i unmounted
          in fst (useEffect_mount props st) = cell \<and>
             mounted = st\<lparr>scriptCells := scriptCells st @ [None],
                           idleCallbacks := idleCallbacks st @ [(cell, props)]\<rparr> \<and>
             unmounted = mounted \<and>
             (cache_key props \<notin> scriptCache st \<longrightarrow>
                body fired = body st @ [length (elements st)] \<and>
                scriptCache fired = insert (cache_key props) (scriptCache st) \<and>
                read_script fired cell = Some (length (elements st)))) \<and>
         (\<forall>s i cell. i < length (idleCallbacks s) \<longrightarrow> idleCallbacks s ! i = (cell, props) \<longrightarrow>
            (cache_key props \<in> scriptCache s \<longrightarrow>
               body (runIdleCallback i s) = body s \<and> calls (runIdleCallback i s) = calls s \<and>
               elements (runIdleCallback i s) = elements s) \<and>
            (cache_key props \<notin> scriptCache s \<longrightarrow>
               body (runIdleCallback i s) = body s @ [length (elements s)]))"
proof -
  define cell where "cell = length (scriptCells st)"
  define i where "i = length (idleCallbacks st)"
  define mounted where "mounted = snd (useEffect_mount props st)"
  have strat: "strategy_or_default props = idle"
    using assms by (simp add: strategy_or_default_def)
  have mount: "useEffect_mount props st =
      (cell, st\<lparr>scriptCells := scriptCells st @ [None],
                idleCallbacks := idleCallbacks st @ [(cell, props)]\<rparr>)"
    unfolding cell_def by (rule mount_idle [OF strat])
  then have mounted: "mounted = st\<lparr>scriptCells := scriptCells st @ [None],
      idleCallbacks := idleCallbacks st @ [(cell, props)]\<rparr>"
    by (simp add: mounted_def)
  have "read_script mounted cell = None"
    by (simp add: mounted read_script_def cell_def)
  then have unmounted: "useEffect_cleanup props cell mounted = mounted"
    by (rule cleanup_without_script)
  have pending: "i < length (idleCallbacks mounted)" "idleCallbacks mounted ! i = (cell, props)"
    by (simp_all add: mounted i_def)
  have fired: "body (runIdleCallback i mounted) = body st @ [length (elements st)] \<and>
      scriptCache (runIdleCallback i mounted) = insert (cache_key props) (scriptCache st) \<and>
      read_script (runIdleCallback i mounted) cell = Some (length (elements st))"
    if "cache_key props \<notin> scriptCache st"
  proof -
    have "cache_key props \<notin> scriptCache mounted"
      using that by (simp add: mounted)
    from idle_run_frame(2) [OF pending this] show ?thesis
      by (simp add: mounted cell_def)
  qed
  have general: "\<forall>s i cell. i < length (idleCallbacks s) \<longrightarrow> idleCallbacks s ! i = (cell, props) \<longrightarrow>
      (cache_key props \<in> scriptCache s \<longrightarrow>
         body (runIdleCallback i s) = body s \<and> calls (runIdleCallback i s) = calls s \<and>
         elements (runIdleCallback i s) = elements s) \<and>
      (cache_key props \<notin> scriptCache s \<longrightarrow>
         body (runIdleCallback i s) = body s @ [length (elements s)])"
    using idle_run_frame by blast
  show ?thesis
    using mount mounted unmounted fired general
    unfolding Let_def cell_def [symmetric] i_def [symmetric] mounted_def [symmetric]
    by simp
qed


theorem idle_insertion_at_callback_witness:
  "strategy (no_props\<lparr>src := Some ''c.js'', strategy := Some idle\<rparr>) = Some idle \<and>
   cache_key (no_props\<lparr>src := Some ''c.js'', strategy := Some idle\<rparr>)
     \<notin> scriptCache (fresh_page ''/'' []) \<and>
   body (snd (useEffect_mount (no_props\<lparr>src := Some ''c.js'', strategy := Some idle\<rparr>)
                (fresh_page ''/'' []))) = [] \<and>
   body (runIdleCallback 0
           (useEffect_cleanup (no_props\<lparr>src := Some ''c.js'', strategy := Some idle\<rparr>) 0
              (snd (useEffect_mount (no_props\<lparr>src := Some ''c.js'', strategy := Some idle\<rparr>)
                      (fresh_page ''/'' []))))) = [0] \<and>
   scriptCache (runIdleCallback 0
           (useEffect_cleanup (no_props\<lparr>src := Some ''c.js'', strategy := Some idle\<rparr>) 0
              (snd (useEffect_mount (no_props\<lparr>src := Some ''c.js'', strategy := Some idle\<rparr>)
                      (fresh_page ''/'' []))))) = {Some ''c.js''}"
proof -
  let ?p = "no_props\<lparr>src := Some ''c.js'', strategy := Some idle\<rparr>"
  have s: "strategy ?p = Some idle"
    by simp
  have k: "cache_key ?p = Some ''c.js''"
    by (simp add: cache_key_def js_or_def)
  show ?thesis
    using s k idle_insertion_at_callback [OF s, of "fresh_page ''/'' []"]
    by (auto simp: Let_def)
qed

end
